theory Spec2Isabelle
  imports Main "HOL-Library.Word"
begin

section \<open>The road parser of the OpenDRIVE reader\<close>

text \<open>
  A shallow embedding of \<^verbatim>\<open>RoadParser::Parse\<close>
  (\<^verbatim>\<open>LibCarla/source/carla/opendrive/parser/RoadParser.cpp\<close>).
  The C++ \<^verbatim>\<open>int\<close> is a 32-bit word, read as two's complement by \<open>sint\<close>.
  A \<^verbatim>\<open>float\<close> is kept as its 32-bit pattern: the parser only reads floats from
  attributes and hands them on, it never computes with them.
\<close>

type_synonym cint = "32 word"

datatype float = Float (bits: "32 word")

subsection \<open>The document\<close>

text \<open>
  Modelled from the spec: the XML document model (pugixml: \<^verbatim>\<open>xml_node\<close>,
  \<^verbatim>\<open>child\<close>, \<^verbatim>\<open>children\<close>, \<^verbatim>\<open>attribute\<close>) is not part of the sources.
  The spec gives it as the capability to fetch the children of a node by tag name and
  to read an attribute by name, with typed coercion and a type-appropriate default when
  the attribute or the node is absent, in document order.  An element carries its tag,
  its attributes and its children, both in document order.  A node handle may be null
  (\<open>None\<close>): asking a null handle for a child gives the null handle, for its children
  the empty range, for an attribute the null attribute.  \<open>child\<close> is the first child of
  that name, \<open>children_named\<close> all children of that name, \<open>attribute\<close> the value of the
  first attribute of that name.
\<close>

datatype xml_node =
  Element (node_name: string) (node_attributes: "(string \<times> string) list")
    (node_children: "xml_node list")

type_synonym xml_handle = "xml_node option"
type_synonym xml_attribute = "string option"

definition child :: "xml_handle \<Rightarrow> string \<Rightarrow> xml_handle" where
  "child h nm =
     (case h of None \<Rightarrow> None
      | Some n \<Rightarrow> find (\<lambda>k. node_name k = nm) (node_children n))"

definition children_named :: "xml_handle \<Rightarrow> string \<Rightarrow> xml_node list" where
  "children_named h nm =
     (case h of None \<Rightarrow> []
      | Some n \<Rightarrow> filter (\<lambda>k. node_name k = nm) (node_children n))"

definition attribute :: "xml_handle \<Rightarrow> string \<Rightarrow> xml_attribute" where
  "attribute h nm =
     (case h of None \<Rightarrow> None
      | Some n \<Rightarrow> map_of (node_attributes n) nm)"

text \<open>
  Modelled from the spec: the typed reads of an attribute (pugixml: \<^verbatim>\<open>as_int\<close>,
  \<^verbatim>\<open>as_float\<close>, \<^verbatim>\<open>as_bool\<close>, \<^verbatim>\<open>value\<close>) are not part of the sources.
  How the text of a present attribute is coerced is a parameter of the parser
  (\<open>typed_access\<close>).  What the spec fixes is the result for an absent attribute:
  \<open>0\<close>, \<open>0.0\<close>, \<open>false\<close> and, for the untyped read \<open>value_of\<close>, the empty string.
\<close>

record typed_access =
  to_int :: "string \<Rightarrow> cint"
  to_float :: "string \<Rightarrow> float"
  to_bool :: "string \<Rightarrow> bool"

definition as_int :: "typed_access \<Rightarrow> xml_attribute \<Rightarrow> cint" where
  "as_int cv at = (case at of None \<Rightarrow> 0 | Some v \<Rightarrow> to_int cv v)"

definition as_float :: "typed_access \<Rightarrow> xml_attribute \<Rightarrow> float" where
  "as_float cv at = (case at of None \<Rightarrow> Float 0 | Some v \<Rightarrow> to_float cv v)"

definition as_bool :: "typed_access \<Rightarrow> xml_attribute \<Rightarrow> bool" where
  "as_bool cv at = (case at of None \<Rightarrow> False | Some v \<Rightarrow> to_bool cv v)"

definition value_of :: "xml_attribute \<Rightarrow> string" where
  "value_of at = (case at of None \<Rightarrow> [] | Some v \<Rightarrow> v)"

subsection \<open>The data model\<close>

record Polynomial =
  s :: float
  a :: float
  b :: float
  c :: float
  d :: float

record Lane =
  id_lane :: cint
  type :: string
  level :: bool
  predecessor :: cint
  successor :: cint

record LaneSection =
  s :: float
  a :: float
  b :: float
  c :: float
  d :: float
  lanes :: "Lane list"

record RoadTypeSpeed =
  s :: float
  type :: string
  max_speed :: float
  unit :: string

record Road =
  id_road :: cint
  name :: string
  length_road :: float
  junction_id :: cint
  predecessor :: cint
  successor :: cint
  speed :: "RoadTypeSpeed list"
  sections :: "LaneSection list"

subsection \<open>The builder\<close>

text \<open>
  Modelled from the spec: \<^verbatim>\<open>carla::road::MapBuilder\<close> and
  \<^verbatim>\<open>geom::CubicPolynomial\<close> are not part of the sources.  The spec gives the
  builder as the four calls below and nothing else; the builder is the log of the calls
  it has received, oldest first, and a polynomial is the five arguments of its
  constructor.
\<close>

datatype CubicPolynomial = CubicPolynomial float float float float float

datatype builder_call =
  is_AddRoad: AddRoad cint string float cint cint cint
| is_SetRoadTypeSpeed: SetRoadTypeSpeed cint float string float string
| is_AddRoadSection: AddRoadSection cint CubicPolynomial
| is_AddRoadSectionLane: AddRoadSectionLane cint cint cint string bool cint cint

type_synonym MapBuilder = "builder_call list"

definition invoke :: "MapBuilder \<Rightarrow> builder_call \<Rightarrow> MapBuilder" where
  "invoke map_builder call = map_builder @ [call]"

subsection \<open>Extraction\<close>

text \<open>
  \<^verbatim>\<open>lane_offsets[0]\<close> and \<^verbatim>\<open>lane_offsets.pop_front()\<close> on an empty
  \<^verbatim>\<open>std::deque\<close> are undefined behaviour.  The source does not test for it.  The
  functions \<open>parse_section\<close> to \<open>Parse\<close> read the source by the language standard:
  the run has no meaning from there on, and the model stops with an error.  What the
  compiled code does at that point is the subject of the functions \<open>compiled_section\<close>
  to \<open>Parse_compiled\<close> further down.
\<close>

datatype error = QueueUnderflow

text \<open>The body of the loops over the left and the right lanes (the two are the same text).\<close>

definition parse_lane :: "typed_access \<Rightarrow> xml_node \<Rightarrow> Lane" where
  "parse_lane cv node_lane =
     (let lane = \<lparr>id_lane = 0, Lane.type = ''none'', level = False,
                  Lane.predecessor = 0, Lane.successor = 0\<rparr>;
          lane = lane\<lparr>id_lane := as_int cv (attribute (Some node_lane) ''id'')\<rparr>;
          lane = lane\<lparr>Lane.type := value_of (attribute (Some node_lane) ''type'')\<rparr>;
          lane = lane\<lparr>level := as_bool cv (attribute (Some node_lane) ''level'')\<rparr>;
          link2 = child (Some node_lane) ''link'';
          lane = (if link2 \<noteq> None then
                    (let lane = (if child link2 ''predecessor'' \<noteq> None
                                 then lane\<lparr>Lane.predecessor :=
                                   as_int cv (attribute (child link2 ''predecessor'') ''id'')\<rparr>
                                 else lane);
                         lane = (if child link2 ''successor'' \<noteq> None
                                 then lane\<lparr>Lane.successor :=
                                   as_int cv (attribute (child link2 ''successor'') ''id'')\<rparr>
                                 else lane)
                     in lane)
                  else lane)
      in lane)"

text \<open>A loop over lane elements, appending each lane to the lanes collected so far.\<close>

fun parse_lanes :: "typed_access \<Rightarrow> xml_node list \<Rightarrow> Lane list \<Rightarrow> Lane list" where
  "parse_lanes cv [] acc = acc"
| "parse_lanes cv (node_lane # rest) acc = parse_lanes cv rest (acc @ [parse_lane cv node_lane])"

text \<open>
  The body of the loop over lane sections: the section, and the queue after the pop.
  The four reads of \<^verbatim>\<open>lane_offsets[0]\<close> and the \<^verbatim>\<open>pop_front\<close> are the one
  case distinction on the queue.
\<close>

definition parse_section ::
  "typed_access \<Rightarrow> Polynomial list \<Rightarrow> xml_node \<Rightarrow> error + (LaneSection \<times> Polynomial list)" where
  "parse_section cv lane_offsets node_section =
     (let section = \<lparr>LaneSection.s = Float 0, LaneSection.a = Float 0,
                     LaneSection.b = Float 0, LaneSection.c = Float 0, LaneSection.d = Float 0,
                     lanes = []\<rparr>;
          section = section\<lparr>LaneSection.s := as_float cv (attribute (Some node_section) ''s'')\<rparr>
      in case lane_offsets of
           [] \<Rightarrow> Inl QueueUnderflow
         | front # popped \<Rightarrow>
             (let section = section\<lparr>LaneSection.a := Polynomial.a front\<rparr>;
                  section = section\<lparr>LaneSection.b := Polynomial.b front\<rparr>;
                  section = section\<lparr>LaneSection.c := Polynomial.c front\<rparr>;
                  section = section\<lparr>LaneSection.d := Polynomial.d front\<rparr>;
                  section = section\<lparr>lanes := parse_lanes cv
                    (children_named (child (Some node_section) ''left'') ''lane'')
                    (lanes section)\<rparr>;
                  section = section\<lparr>lanes := parse_lanes cv
                    (children_named (child (Some node_section) ''right'') ''lane'')
                    (lanes section)\<rparr>
              in Inr (section, popped)))"

fun parse_sections ::
  "typed_access \<Rightarrow> Polynomial list \<Rightarrow> xml_node list \<Rightarrow> LaneSection list
     \<Rightarrow> error + (LaneSection list \<times> Polynomial list)" where
  "parse_sections cv lane_offsets [] acc = Inr (acc, lane_offsets)"
| "parse_sections cv lane_offsets (node_section # rest) acc =
     (case parse_section cv lane_offsets node_section of
        Inl e \<Rightarrow> Inl e
      | Inr (section, popped) \<Rightarrow> parse_sections cv popped rest (acc @ [section]))"

definition parse_offset :: "typed_access \<Rightarrow> xml_node \<Rightarrow> Polynomial" where
  "parse_offset cv node_offset =
     (let offset = \<lparr>Polynomial.s = Float 0, Polynomial.a = Float 0, Polynomial.b = Float 0,
                    Polynomial.c = Float 0, Polynomial.d = Float 0\<rparr>;
          offset = offset\<lparr>Polynomial.s := as_float cv (attribute (Some node_offset) ''s'')\<rparr>;
          offset = offset\<lparr>Polynomial.a := as_float cv (attribute (Some node_offset) ''a'')\<rparr>;
          offset = offset\<lparr>Polynomial.b := as_float cv (attribute (Some node_offset) ''b'')\<rparr>;
          offset = offset\<lparr>Polynomial.c := as_float cv (attribute (Some node_offset) ''c'')\<rparr>;
          offset = offset\<lparr>Polynomial.d := as_float cv (attribute (Some node_offset) ''d'')\<rparr>
      in offset)"

fun parse_offsets :: "typed_access \<Rightarrow> xml_node list \<Rightarrow> Polynomial list \<Rightarrow> Polynomial list" where
  "parse_offsets cv [] lane_offsets = lane_offsets"
| "parse_offsets cv (node_offset # rest) lane_offsets =
     parse_offsets cv rest (lane_offsets @ [parse_offset cv node_offset])"

definition parse_type :: "typed_access \<Rightarrow> xml_node \<Rightarrow> RoadTypeSpeed" where
  "parse_type cv node_type =
     (let tp = \<lparr>RoadTypeSpeed.s = Float 0, RoadTypeSpeed.type = [], max_speed = Float 0,
                unit = []\<rparr>;
          tp = tp\<lparr>RoadTypeSpeed.s := as_float cv (attribute (Some node_type) ''s'')\<rparr>;
          tp = tp\<lparr>RoadTypeSpeed.type := value_of (attribute (Some node_type) ''type'')\<rparr>;
          speed = child (Some node_type) ''speed'';
          tp = (if speed \<noteq> None then
                  (let tp = tp\<lparr>max_speed := as_float cv (attribute speed ''max'')\<rparr>;
                       tp = tp\<lparr>unit := value_of (attribute speed ''unit'')\<rparr>
                   in tp)
                else tp)
      in tp)"

fun parse_types ::
  "typed_access \<Rightarrow> xml_node list \<Rightarrow> RoadTypeSpeed list \<Rightarrow> RoadTypeSpeed list" where
  "parse_types cv [] acc = acc"
| "parse_types cv (node_type # rest) acc = parse_types cv rest (acc @ [parse_type cv node_type])"

text \<open>The body of the loop over road elements.\<close>

definition parse_road :: "typed_access \<Rightarrow> xml_node \<Rightarrow> error + Road" where
  "parse_road cv node_road =
     (let road = \<lparr>id_road = 0, name = [], length_road = Float 0, junction_id = - 1,
                  Road.predecessor = - 1, Road.successor = - 1, speed = [], sections = []\<rparr>;
          road = road\<lparr>id_road := as_int cv (attribute (Some node_road) ''id'')\<rparr>;
          road = road\<lparr>name := value_of (attribute (Some node_road) ''name'')\<rparr>;
          road = road\<lparr>length_road := as_float cv (attribute (Some node_road) ''length'')\<rparr>;
          road = road\<lparr>junction_id := as_int cv (attribute (Some node_road) ''junction'')\<rparr>;
          link = child (Some node_road) ''link'';
          road = (if link \<noteq> None then
                    (let road = (if child link ''predecessor'' \<noteq> None
                                 then road\<lparr>Road.predecessor :=
                                   as_int cv (attribute (child link ''predecessor'') ''elementId'')\<rparr>
                                 else road);
                         road = (if child link ''successor'' \<noteq> None
                                 then road\<lparr>Road.successor :=
                                   as_int cv (attribute (child link ''successor'') ''elementId'')\<rparr>
                                 else road)
                     in road)
                  else road);
          road = road\<lparr>speed := parse_types cv (children_named (Some node_road) ''type'') (speed road)\<rparr>;
          lane_offsets = parse_offsets cv
            (children_named (child (Some node_road) ''lanes'') ''laneOffset'') []
      in case parse_sections cv lane_offsets
                (children_named (child (Some node_road) ''lanes'') ''laneSection'')
                (sections road) of
           Inl e \<Rightarrow> Inl e
         | Inr (secs, remaining) \<Rightarrow> Inr (road\<lparr>sections := secs\<rparr>))"

fun parse_roads :: "typed_access \<Rightarrow> xml_node list \<Rightarrow> Road list \<Rightarrow> error + Road list" where
  "parse_roads cv [] roads = Inr roads"
| "parse_roads cv (node_road # rest) roads =
     (case parse_road cv node_road of
        Inl e \<Rightarrow> Inl e
      | Inr road \<Rightarrow> parse_roads cv rest (roads @ [road]))"

subsection \<open>Forwarding to the builder\<close>

fun forward_speeds :: "cint \<Rightarrow> RoadTypeSpeed list \<Rightarrow> MapBuilder \<Rightarrow> MapBuilder" where
  "forward_speeds rid [] map_builder = map_builder"
| "forward_speeds rid (sp # rest) map_builder =
     forward_speeds rid rest
       (invoke map_builder
          (SetRoadTypeSpeed rid (RoadTypeSpeed.s sp) (RoadTypeSpeed.type sp) (max_speed sp) (unit sp)))"

fun forward_lanes :: "cint \<Rightarrow> cint \<Rightarrow> Lane list \<Rightarrow> MapBuilder \<Rightarrow> MapBuilder" where
  "forward_lanes rid i [] map_builder = map_builder"
| "forward_lanes rid i (l # rest) map_builder =
     forward_lanes rid i rest
       (invoke map_builder
          (AddRoadSectionLane rid i (id_lane l) (Lane.type l) (level l)
             (Lane.predecessor l) (Lane.successor l)))"

text \<open>The loop over the sections of a road, with its counter \<^verbatim>\<open>i\<close>.\<close>

fun forward_sections :: "cint \<Rightarrow> cint \<Rightarrow> LaneSection list \<Rightarrow> MapBuilder \<Rightarrow> MapBuilder" where
  "forward_sections rid i [] map_builder = map_builder"
| "forward_sections rid i (sec # rest) map_builder =
     (let map_builder = invoke map_builder
            (AddRoadSection rid
               (CubicPolynomial (LaneSection.a sec) (LaneSection.b sec) (LaneSection.c sec)
                  (LaneSection.d sec) (LaneSection.s sec)));
          map_builder = forward_lanes rid i (lanes sec) map_builder
      in forward_sections rid (i + 1) rest map_builder)"

definition forward_road :: "Road \<Rightarrow> MapBuilder \<Rightarrow> MapBuilder" where
  "forward_road r map_builder =
     (let map_builder = invoke map_builder
            (AddRoad (id_road r) (name r) (length_road r) (junction_id r)
               (Road.predecessor r) (Road.successor r));
          map_builder = forward_speeds (id_road r) (speed r) map_builder
      in forward_sections (id_road r) 0 (sections r) map_builder)"

fun forward_roads :: "Road list \<Rightarrow> MapBuilder \<Rightarrow> MapBuilder" where
  "forward_roads [] map_builder = map_builder"
| "forward_roads (r # rest) map_builder = forward_roads rest (forward_road r map_builder)"

definition Parse :: "typed_access \<Rightarrow> xml_node \<Rightarrow> MapBuilder \<Rightarrow> error + MapBuilder" where
  "Parse cv xml map_builder =
     (case parse_roads cv (children_named (child (Some xml) ''OpenDRIVE'') ''road'') [] of
        Inl e \<Rightarrow> Inl e
      | Inr roads \<Rightarrow> Inr (forward_roads roads map_builder))"

subsection \<open>Reading past the end of the queue\<close>

text \<open>
  The compiled code has no emptiness test either: on an empty queue the read of
  \<^verbatim>\<open>lane_offsets[0]\<close> finds what the memory behind the deque holds, the pop leaves
  no element to read, and the run goes on to the next statement.  What the memory holds is
  not given by the document; it is a parameter of the run: \<open>stale r j\<close> is the
  polynomial that the read for the section at position \<open>j\<close> of the road at position
  \<open>r\<close> finds, should that read happen on an empty queue.  The loops below are the loops
  above, statement by statement, with this reading of the two deque operations
  (\<open>read_front\<close>, \<open>pop_front\<close>) and with the positions counted along.  Where the
  functions above return, the functions below give the same roads and the same calls
  (\<open>compiled_road_suffice\<close>, \<open>Parse_agrees\<close>).
\<close>

type_synonym stale_memory = "nat \<Rightarrow> nat \<Rightarrow> Polynomial"

definition read_front :: "Polynomial \<Rightarrow> Polynomial list \<Rightarrow> Polynomial" where
  "read_front found lane_offsets = (case lane_offsets of [] \<Rightarrow> found | front # _ \<Rightarrow> front)"

definition pop_front :: "Polynomial list \<Rightarrow> Polynomial list" where
  "pop_front lane_offsets = (case lane_offsets of [] \<Rightarrow> [] | _ # popped \<Rightarrow> popped)"

definition compiled_section ::
  "typed_access \<Rightarrow> Polynomial \<Rightarrow> Polynomial list \<Rightarrow> xml_node \<Rightarrow> LaneSection \<times> Polynomial list" where
  "compiled_section cv found lane_offsets node_section =
     (let section = \<lparr>LaneSection.s = Float 0, LaneSection.a = Float 0,
                     LaneSection.b = Float 0, LaneSection.c = Float 0, LaneSection.d = Float 0,
                     lanes = []\<rparr>;
          section = section\<lparr>LaneSection.s := as_float cv (attribute (Some node_section) ''s'')\<rparr>;
          section = section\<lparr>LaneSection.a := Polynomial.a (read_front found lane_offsets)\<rparr>;
          section = section\<lparr>LaneSection.b := Polynomial.b (read_front found lane_offsets)\<rparr>;
          section = section\<lparr>LaneSection.c := Polynomial.c (read_front found lane_offsets)\<rparr>;
          section = section\<lparr>LaneSection.d := Polynomial.d (read_front found lane_offsets)\<rparr>;
          lane_offsets = pop_front lane_offsets;
          section = section\<lparr>lanes := parse_lanes cv
            (children_named (child (Some node_section) ''left'') ''lane'')
            (lanes section)\<rparr>;
          section = section\<lparr>lanes := parse_lanes cv
            (children_named (child (Some node_section) ''right'') ''lane'')
            (lanes section)\<rparr>
      in (section, lane_offsets))"

fun compiled_sections ::
  "typed_access \<Rightarrow> (nat \<Rightarrow> Polynomial) \<Rightarrow> nat \<Rightarrow> Polynomial list \<Rightarrow> xml_node list
     \<Rightarrow> LaneSection list \<Rightarrow> LaneSection list \<times> Polynomial list" where
  "compiled_sections cv found j lane_offsets [] acc = (acc, lane_offsets)"
| "compiled_sections cv found j lane_offsets (node_section # rest) acc =
     (case compiled_section cv (found j) lane_offsets node_section of
        (section, popped) \<Rightarrow> compiled_sections cv found (Suc j) popped rest (acc @ [section]))"

definition compiled_road :: "typed_access \<Rightarrow> (nat \<Rightarrow> Polynomial) \<Rightarrow> xml_node \<Rightarrow> Road" where
  "compiled_road cv found node_road =
     (let road = \<lparr>id_road = 0, name = [], length_road = Float 0, junction_id = - 1,
                  Road.predecessor = - 1, Road.successor = - 1, speed = [], sections = []\<rparr>;
          road = road\<lparr>id_road := as_int cv (attribute (Some node_road) ''id'')\<rparr>;
          road = road\<lparr>name := value_of (attribute (Some node_road) ''name'')\<rparr>;
          road = road\<lparr>length_road := as_float cv (attribute (Some node_road) ''length'')\<rparr>;
          road = road\<lparr>junction_id := as_int cv (attribute (Some node_road) ''junction'')\<rparr>;
          link = child (Some node_road) ''link'';
          road = (if link \<noteq> None then
                    (let road = (if child link ''predecessor'' \<noteq> None
                                 then road\<lparr>Road.predecessor :=
                                   as_int cv (attribute (child link ''predecessor'') ''elementId'')\<rparr>
                                 else road);
                         road = (if child link ''successor'' \<noteq> None
                                 then road\<lparr>Road.successor :=
                                   as_int cv (attribute (child link ''successor'') ''elementId'')\<rparr>
                                 else road)
                     in road)
                  else road);
          road = road\<lparr>speed := parse_types cv (children_named (Some node_road) ''type'') (speed road)\<rparr>;
          lane_offsets = parse_offsets cv
            (children_named (child (Some node_road) ''lanes'') ''laneOffset'') []
      in road\<lparr>sections := fst (compiled_sections cv found 0 lane_offsets
                (children_named (child (Some node_road) ''lanes'') ''laneSection'')
                (sections road))\<rparr>)"

fun compiled_roads ::
  "typed_access \<Rightarrow> stale_memory \<Rightarrow> nat \<Rightarrow> xml_node list \<Rightarrow> Road list \<Rightarrow> Road list" where
  "compiled_roads cv stale r [] roads = roads"
| "compiled_roads cv stale r (node_road # rest) roads =
     compiled_roads cv stale (Suc r) rest (roads @ [compiled_road cv (stale r) node_road])"

definition Parse_compiled ::
  "typed_access \<Rightarrow> stale_memory \<Rightarrow> xml_node \<Rightarrow> MapBuilder \<Rightarrow> MapBuilder" where
  "Parse_compiled cv stale xml map_builder =
     forward_roads
       (compiled_roads cv stale 0 (children_named (child (Some xml) ''OpenDRIVE'') ''road'') [])
       map_builder"

subsection \<open>Vocabulary of the specification\<close>

text \<open>The road elements of a document, and the two kinds of children of a road's lanes element.\<close>

definition road_nodes :: "xml_node \<Rightarrow> xml_node list" where
  "road_nodes xml = children_named (child (Some xml) ''OpenDRIVE'') ''road''"

definition lane_offset_nodes :: "xml_node \<Rightarrow> xml_node list" where
  "lane_offset_nodes node_road = children_named (child (Some node_road) ''lanes'') ''laneOffset''"

definition lane_section_nodes :: "xml_node \<Rightarrow> xml_node list" where
  "lane_section_nodes node_road = children_named (child (Some node_road) ''lanes'') ''laneSection''"

text \<open>The precondition of the specification: at least as many lane offsets as lane sections.\<close>

definition offsets_suffice :: "xml_node \<Rightarrow> bool" where
  "offsets_suffice node_road \<longleftrightarrow>
     length (lane_section_nodes node_road) \<le> length (lane_offset_nodes node_road)"

text \<open>The lane section built from a section element and the polynomial assigned to it.\<close>

definition aligned_section :: "typed_access \<Rightarrow> Polynomial \<Rightarrow> xml_node \<Rightarrow> LaneSection" where
  "aligned_section cv front n =
     \<lparr>LaneSection.s = as_float cv (attribute (Some n) ''s''),
      LaneSection.a = Polynomial.a front, LaneSection.b = Polynomial.b front,
      LaneSection.c = Polynomial.c front, LaneSection.d = Polynomial.d front,
      lanes = map (parse_lane cv) (children_named (child (Some n) ''left'') ''lane'')
            @ map (parse_lane cv) (children_named (child (Some n) ''right'') ''lane'')\<rparr>"

text \<open>
  The predecessor or successor of a road: the \<open>elementId\<close> of that child of the road's
  link element when both exist, the sentinel \<open>-1\<close> otherwise.
\<close>

definition road_link :: "typed_access \<Rightarrow> xml_node \<Rightarrow> string \<Rightarrow> cint" where
  "road_link cv node_road which =
     (if child (child (Some node_road) ''link'') which \<noteq> None
      then as_int cv (attribute (child (child (Some node_road) ''link'') which) ''elementId'')
      else - 1)"

definition road_header :: "typed_access \<Rightarrow> xml_node \<Rightarrow> Road" where
  "road_header cv node_road =
     \<lparr>id_road = as_int cv (attribute (Some node_road) ''id''),
      name = value_of (attribute (Some node_road) ''name''),
      length_road = as_float cv (attribute (Some node_road) ''length''),
      junction_id = as_int cv (attribute (Some node_road) ''junction''),
      Road.predecessor = road_link cv node_road ''predecessor'',
      Road.successor = road_link cv node_road ''successor'',
      speed = map (parse_type cv) (children_named (Some node_road) ''type''),
      sections = []\<rparr>"

definition extracted_road :: "typed_access \<Rightarrow> xml_node \<Rightarrow> Road" where
  "extracted_road cv node_road =
     (road_header cv node_road)\<lparr>sections :=
        map (\<lambda>(p, n). aligned_section cv p n)
          (zip (map (parse_offset cv) (lane_offset_nodes node_road))
               (lane_section_nodes node_road))\<rparr>"

text \<open>
  The polynomial that the compiled run finds for the section at position \<open>i\<close> of a road
  with the lane offsets \<open>offs\<close>: the offset at that position, or what memory holds.
\<close>

definition section_polynomial :: "(nat \<Rightarrow> Polynomial) \<Rightarrow> Polynomial list \<Rightarrow> nat \<Rightarrow> Polynomial" where
  "section_polynomial found offs i = (if i < length offs then offs ! i else found i)"


text \<open>The builder calls the specification prescribes for a road, in their order.\<close>

definition speed_call :: "cint \<Rightarrow> RoadTypeSpeed \<Rightarrow> builder_call" where
  "speed_call rid sp =
     SetRoadTypeSpeed rid (RoadTypeSpeed.s sp) (RoadTypeSpeed.type sp) (max_speed sp) (unit sp)"

definition lane_call :: "cint \<Rightarrow> cint \<Rightarrow> Lane \<Rightarrow> builder_call" where
  "lane_call rid i l =
     AddRoadSectionLane rid i (id_lane l) (Lane.type l) (level l)
       (Lane.predecessor l) (Lane.successor l)"

definition section_call :: "cint \<Rightarrow> LaneSection \<Rightarrow> builder_call" where
  "section_call rid sec =
     AddRoadSection rid
       (CubicPolynomial (LaneSection.a sec) (LaneSection.b sec) (LaneSection.c sec)
          (LaneSection.d sec) (LaneSection.s sec))"

definition section_calls :: "cint \<Rightarrow> nat \<Rightarrow> LaneSection \<Rightarrow> builder_call list" where
  "section_calls rid k sec = section_call rid sec # map (lane_call rid (of_nat k)) (lanes sec)"

definition road_call :: "Road \<Rightarrow> builder_call" where
  "road_call r =
     AddRoad (id_road r) (name r) (length_road r) (junction_id r)
       (Road.predecessor r) (Road.successor r)"

definition road_calls :: "Road \<Rightarrow> builder_call list" where
  "road_calls r =
     road_call r # map (speed_call (id_road r)) (speed r)
       @ concat (map (\<lambda>(k, sec). section_calls (id_road r) k sec) (enumerate 0 (sections r)))"

subsection \<open>Sample documents\<close>

text \<open>
  A typed access for the worked examples: decimal integers with an optional minus sign,
  the float texts \<open>50.0\<close> (bit pattern \<open>0x42480000\<close>) and everything else as \<open>0.0\<close>,
  and \<open>true\<close> as the one true boolean.
\<close>

fun decimal :: "nat \<Rightarrow> string \<Rightarrow> nat" where
  "decimal acc [] = acc"
| "decimal acc (ch # rest) =
     (if 48 \<le> (of_char ch :: nat) \<and> (of_char ch :: nat) \<le> 57
      then decimal (10 * acc + (of_char ch - 48)) rest else acc)"

definition sample_access :: typed_access where
  "sample_access =
     \<lparr>to_int = (\<lambda>v. if v \<noteq> [] \<and> hd v = CHR ''-'' then - of_nat (decimal 0 (tl v))
                     else of_nat (decimal 0 v)),
      to_float = (\<lambda>v. if v = ''50.0'' then Float 0x42480000 else Float 0),
      to_bool = (\<lambda>v. v = ''true'')\<rparr>"

text \<open>The example of the specification: one road, one lane offset, one section, two lanes.\<close>

definition example_road :: xml_node where
  "example_road =
     Element ''road'' [(''id'', ''10''), (''length'', ''50.0'')]
       [Element ''lanes'' []
          [Element ''laneOffset''
             [(''s'', ''0''), (''a'', ''0''), (''b'', ''0''), (''c'', ''0''), (''d'', ''0'')] [],
           Element ''laneSection'' [(''s'', ''0'')]
             [Element ''left'' []
                [Element ''lane'' [(''id'', ''1''), (''type'', ''driving'')] []],
              Element ''right'' []
                [Element ''lane'' [(''id'', ''-1''), (''type'', ''driving'')] []]]]]"

definition example_document :: xml_node where
  "example_document = Element [] [] [Element ''OpenDRIVE'' [] [example_road]]"

text \<open>
  A road with a link, a type, three lane offsets and two lane sections, the second of
  them without lanes; one of its lanes has no \<open>type\<close> attribute.
\<close>

definition bare_section :: xml_node where
  "bare_section = Element ''laneSection'' [(''s'', ''50.0'')] []"

definition busy_section :: xml_node where
  "busy_section =
     Element ''laneSection'' [(''s'', ''0'')]
       [Element ''left'' []
          [Element ''lane'' [(''id'', ''2''), (''type'', ''sidewalk'')] [],
           Element ''lane'' [(''id'', ''1'')]
             [Element ''link'' [] [Element ''successor'' [(''id'', ''1'')] []]]],
        Element ''right'' []
          [Element ''lane'' [(''id'', ''-1''), (''type'', ''driving''), (''level'', ''true'')] []]]"

definition sample_road :: xml_node where
  "sample_road =
     Element ''road'' [(''id'', ''7''), (''name'', ''main''), (''length'', ''50.0'')]
       [Element ''link'' [] [Element ''predecessor'' [(''elementId'', ''3'')] []],
        Element ''type'' [(''s'', ''0''), (''type'', ''town'')]
          [Element ''speed'' [(''max'', ''50.0''), (''unit'', ''km/h'')] []],
        Element ''lanes'' []
          [Element ''laneOffset'' [(''s'', ''0''), (''a'', ''50.0'')] [],
           busy_section,
           Element ''laneOffset'' [(''s'', ''50.0''), (''b'', ''50.0'')] [],
           bare_section,
           Element ''laneOffset'' [] []]]"

definition sample_document :: xml_node where
  "sample_document = Element [] [] [Element ''OpenDRIVE'' [] [example_road, sample_road]]"

text \<open>A road with two lane sections and a single lane offset.\<close>

definition short_road :: xml_node where
  "short_road =
     Element ''road'' [(''id'', ''4'')]
       [Element ''lanes'' []
          [Element ''laneOffset'' [(''s'', ''0'')] [],
           Element ''laneSection'' [(''s'', ''0'')] [],
           Element ''laneSection'' [(''s'', ''50.0'')] []]]"

text \<open>A road whose only lane has no \<open>type\<close> attribute.\<close>

definition untyped_lane_document :: xml_node where
  "untyped_lane_document =
     Element [] []
       [Element ''OpenDRIVE'' []
          [Element ''road'' [(''id'', ''10'')]
             [Element ''lanes'' []
                [Element ''laneOffset'' [] [],
                 Element ''laneSection'' []
                   [Element ''left'' [] [Element ''lane'' [(''id'', ''1'')] []]]]]]]"

text \<open>A road record with two sections, as the forwarding pass receives it.\<close>

definition sample_record :: Road where
  "sample_record =
     \<lparr>id_road = 7, name = ''main'', length_road = Float 0x42480000, junction_id = 0,
      Road.predecessor = 3, Road.successor = - 1,
      speed = [\<lparr>RoadTypeSpeed.s = Float 0, RoadTypeSpeed.type = ''town'',
                max_speed = Float 0x42480000, unit = ''km/h''\<rparr>],
      sections =
        [\<lparr>LaneSection.s = Float 0x42480000, LaneSection.a = Float 0, LaneSection.b = Float 0,
           LaneSection.c = Float 0, LaneSection.d = Float 0,
           lanes = [\<lparr>id_lane = 1, Lane.type = ''driving'', level = False,
                     Lane.predecessor = 0, Lane.successor = 0\<rparr>,
                    \<lparr>id_lane = - 1, Lane.type = ''driving'', level = False,
                     Lane.predecessor = 0, Lane.successor = 0\<rparr>]\<rparr>,
         \<lparr>LaneSection.s = Float 0, LaneSection.a = Float 0x42480000, LaneSection.b = Float 0,
           LaneSection.c = Float 0, LaneSection.d = Float 0,
           lanes = [\<lparr>id_lane = 2, Lane.type = ''sidewalk'', level = True,
                     Lane.predecessor = 0, Lane.successor = 2\<rparr>]\<rparr>]\<rparr>"

text \<open>
  Two contents of the memory behind the queue, and a document whose second road has two
  lane sections and a single lane offset.
\<close>

definition stale_zeros :: stale_memory where
  "stale_zeros r j =
     \<lparr>Polynomial.s = Float 0, Polynomial.a = Float 0, Polynomial.b = Float 0,
      Polynomial.c = Float 0, Polynomial.d = Float 0\<rparr>"

definition stale_fifties :: stale_memory where
  "stale_fifties r j =
     \<lparr>Polynomial.s = Float 0, Polynomial.a = Float 0x42480000, Polynomial.b = Float 0,
      Polynomial.c = Float 0, Polynomial.d = Float 0x42480000\<rparr>"



section \<open>Properties\<close>

subsection \<open>The loops in closed form\<close>

lemma parse_lanes_append: "parse_lanes cv ns acc = acc @ map (parse_lane cv) ns"
  by (induction ns arbitrary: acc) simp_all

lemma parse_offsets_append: "parse_offsets cv ns acc = acc @ map (parse_offset cv) ns"
  by (induction ns arbitrary: acc) simp_all

lemma parse_types_append: "parse_types cv ns acc = acc @ map (parse_type cv) ns"
  by (induction ns arbitrary: acc) simp_all

lemma child_None [simp]: "child None nm = None"
  by (simp add: child_def)


lemma parse_section_aligned:
  "parse_section cv (front # popped) n = Inr (aligned_section cv front n, popped)"
  by (simp add: parse_section_def parse_lanes_append aligned_section_def)

lemma parse_offset_eq:
  "parse_offset cv n =
     \<lparr>Polynomial.s = as_float cv (attribute (Some n) ''s''),
      Polynomial.a = as_float cv (attribute (Some n) ''a''),
      Polynomial.b = as_float cv (attribute (Some n) ''b''),
      Polynomial.c = as_float cv (attribute (Some n) ''c''),
      Polynomial.d = as_float cv (attribute (Some n) ''d'')\<rparr>"
  by (simp add: parse_offset_def)

lemma parse_sections_ok:
  "length ns \<le> length q \<Longrightarrow>
   parse_sections cv q ns acc =
     Inr (acc @ map (\<lambda>(p, n). aligned_section cv p n) (zip q ns), drop (length ns) q)"
proof (induction ns arbitrary: q acc)
  case Nil
  then show ?case by simp
next
  case (Cons n ns)
  then obtain p q' where q: "q = p # q'" by (cases q) auto
  with Cons.prems have "length ns \<le> length q'" by simp
  from Cons.IH [OF this] show ?case
    by (simp add: q parse_section_aligned)
qed


lemma parse_road_ok:
  assumes "offsets_suffice node_road"
  shows "parse_road cv node_road = Inr (extracted_road cv node_road)"
proof -
  have "length (lane_section_nodes node_road)
          \<le> length (parse_offsets cv (lane_offset_nodes node_road) [])"
    using assms by (simp add: offsets_suffice_def parse_offsets_append)
  from parse_sections_ok [OF this, of cv "[]"] show ?thesis
    by (simp add: parse_road_def extracted_road_def road_header_def road_link_def
        parse_types_append parse_offsets_append lane_offset_nodes_def lane_section_nodes_def
        Let_def)
qed


lemma parse_roads_ok:
  "\<forall>n\<in>set ns. offsets_suffice n \<Longrightarrow>
   parse_roads cv ns acc = Inr (acc @ map (extracted_road cv) ns)"
  by (induction ns arbitrary: acc) (simp_all add: parse_road_ok)


lemma forward_lanes_eq: "forward_lanes rid i ls mb = mb @ map (lane_call rid i) ls"
  by (induction ls arbitrary: mb) (simp_all add: invoke_def lane_call_def)

lemma forward_speeds_eq: "forward_speeds rid sps mb = mb @ map (speed_call rid) sps"
  by (induction sps arbitrary: mb) (simp_all add: invoke_def speed_call_def)

lemma forward_sections_eq:
  "forward_sections rid (of_nat j) secs mb =
     mb @ concat (map (\<lambda>(k, sec). section_calls rid k sec) (enumerate j secs))"
proof (induction secs arbitrary: j mb)
  case Nil
  then show ?case by simp
next
  case (Cons sec secs)
  have next_i: "(of_nat j :: cint) + 1 = of_nat (Suc j)" by simp
  have "forward_sections rid (of_nat j) (sec # secs) mb =
          forward_sections rid (of_nat (Suc j)) secs (mb @ section_calls rid j sec)"
    unfolding forward_sections.simps Let_def next_i
    by (simp add: invoke_def forward_lanes_eq section_calls_def section_call_def)
  also have "\<dots> = (mb @ section_calls rid j sec)
          @ concat (map (\<lambda>(k, sec). section_calls rid k sec) (enumerate (Suc j) secs))"
    by (rule Cons.IH)
  finally show ?case by simp
qed

lemma forward_road_eq: "forward_road r mb = mb @ road_calls r"
  using forward_sections_eq [of "id_road r" 0 "sections r"]
  by (simp add: forward_road_def road_calls_def road_call_def invoke_def forward_speeds_eq)

lemma forward_roads_eq: "forward_roads rs mb = mb @ concat (map road_calls rs)"
  by (induction rs arbitrary: mb) (simp_all add: forward_road_eq)

lemma Parse_ok:
  "\<forall>n\<in>set (road_nodes xml). offsets_suffice n \<Longrightarrow>
   Parse cv xml mb =
     Inr (mb @ concat (map (\<lambda>n. road_calls (extracted_road cv n)) (road_nodes xml)))"
  using parse_roads_ok [of "road_nodes xml" cv "[]"]
  by (simp add: Parse_def road_nodes_def forward_roads_eq comp_def)


subsection \<open>Evaluating the samples\<close>

lemma sample_access_simps [simp]:
  "to_int sample_access v =
     (if v \<noteq> [] \<and> hd v = CHR ''-'' then - of_nat (decimal 0 (tl v)) else of_nat (decimal 0 v))"
  "to_float sample_access v = (if v = ''50.0'' then Float 0x42480000 else Float 0)"
  "to_bool sample_access v = (v = ''true'')"
  by (simp_all add: sample_access_def)

lemmas document_defs =
  child_def children_named_def attribute_def as_int_def as_float_def as_bool_def value_of_def
  road_nodes_def lane_offset_nodes_def lane_section_nodes_def offsets_suffice_def
  example_document_def example_road_def sample_document_def sample_road_def bare_section_def
  busy_section_def
  short_road_def untyped_lane_document_def

lemmas parser_defs =
  Parse_def parse_road_def parse_section_def parse_lane_def parse_offset_def parse_type_def
  forward_road_def invoke_def Let_def

subsection \<open>Counting and splitting the calls\<close>

lemma filter_AddRoad_section_calls: "filter is_AddRoad (section_calls rid k sec) = []"
  by (simp add: section_calls_def section_call_def lane_call_def)

lemma filter_AddRoad_sections:
  "filter is_AddRoad (concat (map (\<lambda>(k, sec). section_calls rid k sec) ks)) = []"
  by (induction ks) (auto simp: filter_AddRoad_section_calls)

lemma filter_AddRoad_road_calls: "filter is_AddRoad (road_calls r) = [road_call r]"
  by (simp add: road_calls_def road_call_def speed_call_def filter_AddRoad_sections)

lemma filter_AddRoad_roads:
  "filter is_AddRoad (concat (map (\<lambda>n. road_calls (f n)) ns)) = map (\<lambda>n. road_call (f n)) ns"
  by (induction ns) (simp_all add: filter_AddRoad_road_calls)

lemma road_call_extracted:
  "road_call (extracted_road cv node_road) =
     AddRoad (as_int cv (attribute (Some node_road) ''id''))
       (value_of (attribute (Some node_road) ''name''))
       (as_float cv (attribute (Some node_road) ''length''))
       (as_int cv (attribute (Some node_road) ''junction''))
       (road_link cv node_road ''predecessor'')
       (road_link cv node_road ''successor'')"
  by (simp add: road_call_def extracted_road_def road_header_def)

lemma count_section_calls:
  "length (filter is_AddRoadSection
     (concat (map (\<lambda>(k, sec). section_calls rid k sec) ks))) = length ks"
  by (induction ks) (auto simp: section_calls_def section_call_def lane_call_def)

lemma enumerate_split:
  assumes "k < length xs"
  shows "enumerate j xs =
     enumerate j (take k xs) @ (j + k, xs ! k) # enumerate (j + Suc k) (drop (Suc k) xs)"
proof -
  have "enumerate j xs = enumerate j (take k xs @ xs ! k # drop (Suc k) xs)"
    using assms by (simp add: id_take_nth_drop [symmetric])
  also have "\<dots> = enumerate j (take k xs)
      @ enumerate (j + length (take k xs)) (xs ! k # drop (Suc k) xs)"
    by (rule enumerate_append_eq)
  finally show ?thesis
    using assms by simp
qed

lemma sections_split:
  assumes "k < length secs"
  shows "concat (map (\<lambda>(k, sec). section_calls rid k sec) (enumerate j secs)) =
     concat (map (\<lambda>(k, sec). section_calls rid k sec) (enumerate j (take k secs)))
       @ section_calls rid (j + k) (secs ! k)
       @ concat (map (\<lambda>(k, sec). section_calls rid k sec)
           (enumerate (j + Suc k) (drop (Suc k) secs)))"
  by (subst enumerate_split [OF assms]) simp

text \<open>
  The counter of the section loop is a C++ \<^verbatim>\<open>int\<close>: up to \<open>2\<^sup>3\<^sup>1\<close> sections it is
  the position; beyond that the increment overflows (undefined in C++, wrap-around here).
\<close>

lemma sint_position: "k < 2 ^ 31 \<Longrightarrow> sint (of_nat k :: cint) = int k"
  by (simp add: signed_of_nat signed_take_bit_int_eq_self)

subsection \<open>What a lane and a road default to\<close>

lemma parse_lane_type:
  "Lane.type (parse_lane cv node_lane) = value_of (attribute (Some node_lane) ''type'')"
  by (simp add: parse_lane_def Let_def)

lemma parse_lane_level:
  "attribute (Some node_lane) ''level'' = None \<Longrightarrow> level (parse_lane cv node_lane) = False"
  by (simp add: parse_lane_def Let_def as_bool_def)

lemma road_link_absent:
  "child (Some node_road) ''link'' = None \<Longrightarrow> road_link cv node_road which = - 1"
  by (simp add: road_link_def)

subsection \<open>The compiled reading in closed form\<close>

lemma compiled_section_eq:
  "compiled_section cv found q n = (aligned_section cv (read_front found q) n, pop_front q)"
  by (simp add: compiled_section_def aligned_section_def parse_lanes_append Let_def)

lemma pop_front_drop: "pop_front q = drop 1 q"
  by (cases q) (simp_all add: pop_front_def)

lemma compiled_sections_eq:
  "compiled_sections cv found j q ns acc =
     (acc @ map (\<lambda>(i, n). aligned_section cv
                  (if i - j < length q then q ! (i - j) else found i) n) (enumerate j ns),
      drop (length ns) q)"
proof (induction ns arbitrary: j q acc)
  case Nil
  then show ?case by simp
next
  case (Cons n ns)
  have later: "map (\<lambda>(i, n). aligned_section cv
                  (if i - Suc j < length (pop_front q) then pop_front q ! (i - Suc j) else found i) n)
            (enumerate (Suc j) ns) =
        map (\<lambda>(i, n). aligned_section cv
                  (if i - j < length q then q ! (i - j) else found i) n) (enumerate (Suc j) ns)"
  proof (rule map_cong [OF refl])
    fix x
    assume "x \<in> set (enumerate (Suc j) ns)"
    then have "Suc j \<le> fst x"
      by (auto simp: in_set_enumerate_eq)
    then obtain e where e: "fst x - j = Suc e" "fst x - Suc j = e"
      by (metis Suc_diff_le diff_Suc_Suc)
    show "(case x of (i, n) \<Rightarrow> aligned_section cv
                  (if i - Suc j < length (pop_front q) then pop_front q ! (i - Suc j) else found i) n) =
          (case x of (i, n) \<Rightarrow> aligned_section cv
                  (if i - j < length q then q ! (i - j) else found i) n)"
      using e by (cases x; cases q) (auto simp: pop_front_def)
  qed
  let ?f' = "\<lambda>(i, n). aligned_section cv
                  (if i - Suc j < length (pop_front q) then pop_front q ! (i - Suc j) else found i) n"
  let ?f = "\<lambda>(i, n). aligned_section cv (if i - j < length q then q ! (i - j) else found i) n"
  have front: "aligned_section cv (read_front (found j) q) n = ?f (j, n)"
    by (cases q) (simp_all add: read_front_def)
  have rest: "drop (length ns) (pop_front q) = drop (length (n # ns)) q"
    by (simp add: pop_front_drop)
  have "compiled_sections cv found j q (n # ns) acc =
      compiled_sections cv found (Suc j) (pop_front q) ns
        (acc @ [aligned_section cv (read_front (found j) q) n])"
    by (simp add: compiled_section_eq)
  also have "\<dots> = ((acc @ [aligned_section cv (read_front (found j) q) n])
      @ map ?f' (enumerate (Suc j) ns), drop (length ns) (pop_front q))"
    by (rule Cons.IH)
  also have "\<dots> = ((acc @ [?f (j, n)]) @ map ?f (enumerate (Suc j) ns), drop (length (n # ns)) q)"
    by (simp only: later front rest)
  also have "\<dots> = (acc @ map ?f (enumerate j (n # ns)), drop (length (n # ns)) q)"
    by simp
  finally show ?case .
qed

lemma compiled_sections_from_0:
  "compiled_sections cv found 0 q ns [] =
     (map (\<lambda>(i, n). aligned_section cv (section_polynomial found q i) n) (enumerate 0 ns),
      drop (length ns) q)"
  by (auto simp: compiled_sections_eq section_polynomial_def)

lemma compiled_road_eq:
  "compiled_road cv found node_road =
     (road_header cv node_road)\<lparr>sections :=
        map (\<lambda>(i, n). aligned_section cv
               (section_polynomial found (map (parse_offset cv) (lane_offset_nodes node_road)) i) n)
          (enumerate 0 (lane_section_nodes node_road))\<rparr>"
  by (simp add: compiled_road_def road_header_def road_link_def parse_types_append
      parse_offsets_append lane_offset_nodes_def lane_section_nodes_def Let_def
      compiled_sections_from_0)

lemma compiled_road_suffice:
  assumes "offsets_suffice node_road"
  shows "compiled_road cv found node_road = extracted_road cv node_road"
proof -
  let ?offs = "map (parse_offset cv) (lane_offset_nodes node_road)"
  let ?secs = "lane_section_nodes node_road"
  have le: "length ?secs \<le> length ?offs"
    using assms by (simp add: offsets_suffice_def)
  have "map (\<lambda>(i, n). aligned_section cv (section_polynomial found ?offs i) n) (enumerate 0 ?secs) =
        map (\<lambda>(p, n). aligned_section cv p n) (zip ?offs ?secs)"
    using le by (intro nth_equalityI) (simp_all add: nth_enumerate_eq section_polynomial_def)
  then show ?thesis
    by (simp add: compiled_road_eq extracted_road_def)
qed

lemma map_enumerate_snd: "map (\<lambda>(k, x). g x) (enumerate n xs) = map g xs"
  by (induction xs arbitrary: n) simp_all

lemma compiled_roads_eq:
  "compiled_roads cv stale r ns acc =
     acc @ map (\<lambda>(k, n). compiled_road cv (stale k) n) (enumerate r ns)"
  by (induction ns arbitrary: r acc) simp_all

lemma Parse_compiled_eq:
  "Parse_compiled cv stale xml mb =
     mb @ concat (map (\<lambda>(k, n). road_calls (compiled_road cv (stale k) n))
                    (enumerate 0 (road_nodes xml)))"
  by (simp add: Parse_compiled_def compiled_roads_eq forward_roads_eq road_nodes_def comp_def
      case_prod_unfold)

lemma Parse_compiled_suffice:
  assumes "\<forall>n\<in>set (road_nodes xml). offsets_suffice n"
  shows "Parse_compiled cv stale xml mb =
     mb @ concat (map (\<lambda>n. road_calls (extracted_road cv n)) (road_nodes xml))"
proof -
  have "map (\<lambda>(k, n). road_calls (compiled_road cv (stale k) n)) (enumerate 0 (road_nodes xml)) =
        map (\<lambda>(k, n). road_calls (extracted_road cv n)) (enumerate 0 (road_nodes xml))"
    using assms by (intro map_cong [OF refl]) (auto simp: in_set_enumerate_eq compiled_road_suffice)
  also have "\<dots> = map (\<lambda>n. road_calls (extracted_road cv n)) (road_nodes xml)"
    by (rule map_enumerate_snd)
  finally show ?thesis
    by (simp add: Parse_compiled_eq)
qed















lemmas compiled_defs =
  Parse_compiled_def compiled_road_def compiled_section_def read_front_def pop_front_def


subsection \<open>Lane offsets and lane sections\<close>

text \<open>
  C1.  When a road has at least as many lane offsets as lane sections, extraction of the
  road succeeds, the road has one section per lane section element, and the section at
  position \<open>n\<close> carries the coefficients \<open>a\<close>, \<open>b\<close>, \<open>c\<close>, \<open>d\<close> read from the lane offset
  element at position \<open>n\<close> (and its own \<open>s\<close>).  The loop pops one polynomial per section:
  what is left in the queue at the end are the polynomials beyond the sections, so no
  polynomial serves two sections.
\<close>

theorem lane_offset_fifo:
  assumes "offsets_suffice node_road"
  shows "\<exists>road.
     parse_road cv node_road = Inr road \<and>
     parse_sections cv (parse_offsets cv (lane_offset_nodes node_road) [])
         (lane_section_nodes node_road) [] =
       Inr (sections road,
            drop (length (lane_section_nodes node_road))
              (map (parse_offset cv) (lane_offset_nodes node_road))) \<and>
     length (sections road) = length (lane_section_nodes node_road) \<and>
     (\<forall>n < length (lane_section_nodes node_road).
        LaneSection.a (sections road ! n) =
          as_float cv (attribute (Some (lane_offset_nodes node_road ! n)) ''a'') \<and>
        LaneSection.b (sections road ! n) =
          as_float cv (attribute (Some (lane_offset_nodes node_road ! n)) ''b'') \<and>
        LaneSection.c (sections road ! n) =
          as_float cv (attribute (Some (lane_offset_nodes node_road ! n)) ''c'') \<and>
        LaneSection.d (sections road ! n) =
          as_float cv (attribute (Some (lane_offset_nodes node_road ! n)) ''d'') \<and>
        LaneSection.s (sections road ! n) =
          as_float cv (attribute (Some (lane_section_nodes node_road ! n)) ''s''))"
proof -
  let ?offs = "map (parse_offset cv) (lane_offset_nodes node_road)"
  let ?secs = "lane_section_nodes node_road"
  let ?road = "extracted_road cv node_road"
  have le: "length ?secs \<le> length ?offs"
    using assms by (simp add: offsets_suffice_def)
  have road: "parse_road cv node_road = Inr ?road"
    using assms by (rule parse_road_ok)
  have secs: "sections ?road = map (\<lambda>(p, n). aligned_section cv p n) (zip ?offs ?secs)"
    by (simp add: extracted_road_def)
  have loop: "parse_sections cv (parse_offsets cv (lane_offset_nodes node_road) []) ?secs [] =
      Inr (sections ?road, drop (length ?secs) ?offs)"
    using parse_sections_ok [of ?secs ?offs cv "[]"] le
    by (simp add: parse_offsets_append secs)
  have len: "length (sections ?road) = length ?secs"
    using le by (simp add: secs)
  have nth: "sections ?road ! n =
      aligned_section cv (parse_offset cv (lane_offset_nodes node_road ! n)) (?secs ! n)"
    if "n < length ?secs" for n
    using that le by (simp add: secs)
  show ?thesis
    using road loop len
    by (intro exI [of _ ?road]) (simp add: nth aligned_section_def parse_offset_eq)
qed

theorem lane_offset_fifo_witness:
  "offsets_suffice sample_road \<and>
   (\<exists>road. parse_road sample_access sample_road = Inr road \<and>
      length (sections road) = 2 \<and>
      LaneSection.a (sections road ! 0) = Float 0x42480000 \<and>
      LaneSection.b (sections road ! 0) = Float 0 \<and>
      LaneSection.a (sections road ! 1) = Float 0 \<and>
      LaneSection.b (sections road ! 1) = Float 0x42480000)"
proof -
  have suffice: "offsets_suffice sample_road"
    by (simp add: document_defs)
  have offs: "lane_offset_nodes sample_road =
      [Element ''laneOffset'' [(''s'', ''0''), (''a'', ''50.0'')] [],
       Element ''laneOffset'' [(''s'', ''50.0''), (''b'', ''50.0'')] [],
       Element ''laneOffset'' [] []]"
    by (simp add: document_defs)
  have secs: "length (lane_section_nodes sample_road) = 2"
    by (simp add: document_defs)
  from lane_offset_fifo [OF suffice, of sample_access] obtain road where
    road: "parse_road sample_access sample_road = Inr road"
    and len: "length (sections road) = length (lane_section_nodes sample_road)"
    and coeff: "\<forall>n < length (lane_section_nodes sample_road).
        LaneSection.a (sections road ! n) =
          as_float sample_access (attribute (Some (lane_offset_nodes sample_road ! n)) ''a'') \<and>
        LaneSection.b (sections road ! n) =
          as_float sample_access (attribute (Some (lane_offset_nodes sample_road ! n)) ''b'')"
    by blast
  from coeff have "LaneSection.a (sections road ! 0) = Float 0x42480000"
    and "LaneSection.b (sections road ! 0) = Float 0"
    and "LaneSection.a (sections road ! 1) = Float 0"
    and "LaneSection.b (sections road ! 1) = Float 0x42480000"
    by (simp_all add: secs offs as_float_def attribute_def)
  with suffice road len secs show ?thesis by simp
qed

subsection \<open>Defaults\<close>

text \<open>
  C2.  A lane element without a \<open>type\<close> attribute: the lane is initialised with the type
  \<open>none\<close>, but the unconditional assignment from the attribute replaces it by the empty
  string, and the empty string is what \<open>AddRoadSectionLane\<close> receives.  (The other two
  defaults hold: \<open>parse_lane_level\<close>, \<open>road_link_absent\<close>.)
\<close>

theorem untyped_lane_type_is_empty:
  "attribute (Some (Element ''lane'' [(''id'', ''1'')] [])) ''type'' = None \<and>
   attribute (Some (Element ''lane'' [(''id'', ''1'')] [])) ''level'' = None \<and>
   Lane.type (parse_lane sample_access (Element ''lane'' [(''id'', ''1'')] [])) = [] \<and>
   Lane.type (parse_lane sample_access (Element ''lane'' [(''id'', ''1'')] [])) \<noteq> ''none'' \<and>
   Parse sample_access untyped_lane_document [] =
     Inr [AddRoad 10 [] (Float 0) 0 (- 1) (- 1),
          AddRoadSection 10 (CubicPolynomial (Float 0) (Float 0) (Float 0) (Float 0) (Float 0)),
          AddRoadSectionLane 10 0 1 [] False 0 0]"
  by (simp add: document_defs parser_defs)

subsection \<open>The queue never underflows\<close>

text \<open>
  C3.  When every road of the document has at least as many lane offsets as lane
  sections, the extraction returns (it does not end in the underflow), and whenever the
  section loop of a road reaches its section \<open>k\<close>, having handled the \<open>k\<close> sections before
  it, the queue has a front element: the read and the pop of that iteration succeed.
\<close>

theorem queue_never_empty:
  assumes "\<forall>node_road \<in> set (road_nodes xml). offsets_suffice node_road"
  shows "(\<exists>result. Parse cv xml map_builder = Inr result) \<and>
    (\<forall>node_road \<in> set (road_nodes xml). \<forall>k < length (lane_section_nodes node_road).
       \<exists>built queue front popped sec.
         parse_sections cv (parse_offsets cv (lane_offset_nodes node_road) [])
             (take k (lane_section_nodes node_road)) [] = Inr (built, queue) \<and>
         queue = front # popped \<and>
         parse_section cv queue (lane_section_nodes node_road ! k) = Inr (sec, popped))"
proof (intro conjI ballI allI impI)
  show "\<exists>result. Parse cv xml map_builder = Inr result"
    using Parse_ok [OF assms] by simp
next
  fix node_road k
  assume road: "node_road \<in> set (road_nodes xml)"
    and k: "k < length (lane_section_nodes node_road)"
  let ?offs = "map (parse_offset cv) (lane_offset_nodes node_road)"
  let ?secs = "lane_section_nodes node_road"
  from assms road have "offsets_suffice node_road" by blast
  with k have lt: "k < length ?offs"
    by (simp add: offsets_suffice_def)
  then have "length (take k ?secs) \<le> length ?offs"
    by simp
  from parse_sections_ok [OF this, of cv "[]"] k
  have loop: "parse_sections cv (parse_offsets cv (lane_offset_nodes node_road) []) (take k ?secs) [] =
      Inr (map (\<lambda>(p, n). aligned_section cv p n) (zip ?offs (take k ?secs)), drop k ?offs)"
    by (simp add: parse_offsets_append min_def)
  from lt have queue: "drop k ?offs = ?offs ! k # drop (Suc k) ?offs"
    by (rule Cons_nth_drop_Suc [symmetric])
  show "\<exists>built queue front popped sec.
         parse_sections cv (parse_offsets cv (lane_offset_nodes node_road) [])
             (take k ?secs) [] = Inr (built, queue) \<and>
         queue = front # popped \<and>
         parse_section cv queue (?secs ! k) = Inr (sec, popped)"
    using loop queue parse_section_aligned [of cv "?offs ! k" "drop (Suc k) ?offs" "?secs ! k"]
    by (metis (no_types, lifting))
qed

theorem queue_never_empty_witness:
  "road_nodes sample_document = [example_road, sample_road] \<and>
   offsets_suffice example_road \<and> offsets_suffice sample_road \<and>
   (\<exists>result. Parse sample_access sample_document [] = Inr result) \<and>
   \<not> offsets_suffice short_road \<and>
   parse_road sample_access short_road = Inl QueueUnderflow"
proof -
  have roads: "road_nodes sample_document = [example_road, sample_road]"
    by (simp add: road_nodes_def child_def children_named_def sample_document_def
        example_road_def sample_road_def)
  have each: "offsets_suffice example_road" "offsets_suffice sample_road"
    by (simp_all add: document_defs)
  then have suffice: "\<forall>node_road \<in> set (road_nodes sample_document). offsets_suffice node_road"
    by (simp add: roads)
  have "\<not> offsets_suffice short_road"
    by (simp add: document_defs)
  moreover have "parse_road sample_access short_road = Inl QueueUnderflow"
    by (simp add: document_defs parser_defs)
  ultimately show ?thesis
    using roads each queue_never_empty [OF suffice, of sample_access "[]"] by blast
qed

subsection \<open>The order of the builder calls\<close>

text \<open>
  C4.  The forwarding pass appends to the builder, road after road, the calls
  \<open>road_calls\<close>: one \<open>AddRoad\<close>, then a \<open>SetRoadTypeSpeed\<close> for each type-speed entry in
  sequence order, then for each section in sequence order one \<open>AddRoadSection\<close> followed by
  an \<open>AddRoadSectionLane\<close> for each lane of the section.  Every run of the parser that
  returns has appended these calls for the roads it extracted.  In particular the call for
  lane \<open>m\<close> of section \<open>k\<close> comes after the \<open>AddRoadSection\<close> call of section \<open>k\<close>, with
  only the calls for the earlier lanes of that section in between.
\<close>

theorem builder_call_order:
  "forward_roads roads map_builder = map_builder @ concat (map road_calls roads) \<and>
   (\<forall>result. Parse cv xml map_builder = Inr result \<longrightarrow>
      (\<exists>extracted. parse_roads cv (road_nodes xml) [] = Inr extracted \<and>
         result = map_builder @ concat (map road_calls extracted))) \<and>
   (\<forall>r :: Road. \<forall>k < length (sections r). \<forall>m < length (lanes (sections r ! k)).
      \<exists>pre post. road_calls r =
        pre @ section_call (id_road r) (sections r ! k)
          # map (lane_call (id_road r) (of_nat k)) (take m (lanes (sections r ! k)))
          @ lane_call (id_road r) (of_nat k) (lanes (sections r ! k) ! m) # post)"
proof (intro conjI allI impI)
  show "forward_roads roads map_builder = map_builder @ concat (map road_calls roads)"
    by (rule forward_roads_eq)
next
  fix result
  assume "Parse cv xml map_builder = Inr result"
  then show "\<exists>extracted. parse_roads cv (road_nodes xml) [] = Inr extracted \<and>
         result = map_builder @ concat (map road_calls extracted)"
    by (auto simp: Parse_def road_nodes_def forward_roads_eq split: sum.splits)
next
  fix r :: Road and k m
  assume k: "k < length (sections r)" and m: "m < length (lanes (sections r ! k))"
  let ?rid = "id_road r"
  let ?ls = "lanes (sections r ! k)"
  let ?f = "\<lambda>(k, sec). section_calls ?rid k sec"
  have "?ls = take m ?ls @ ?ls ! m # drop (Suc m) ?ls"
    using m by (rule id_take_nth_drop)
  then have "map (lane_call ?rid (of_nat k)) ?ls =
      map (lane_call ?rid (of_nat k)) (take m ?ls) @ lane_call ?rid (of_nat k) (?ls ! m)
        # map (lane_call ?rid (of_nat k)) (drop (Suc m) ?ls)"
    by (metis list.simps(9) map_append)
  then have sec: "section_calls ?rid k (sections r ! k) =
      section_call ?rid (sections r ! k)
        # map (lane_call ?rid (of_nat k)) (take m ?ls)
        @ lane_call ?rid (of_nat k) (?ls ! m)
        # map (lane_call ?rid (of_nat k)) (drop (Suc m) ?ls)"
    by (simp add: section_calls_def)
  have "road_calls r =
      (road_call r # map (speed_call ?rid) (speed r)
         @ concat (map ?f (enumerate 0 (take k (sections r)))))
      @ section_call ?rid (sections r ! k)
        # map (lane_call ?rid (of_nat k)) (take m ?ls)
        @ lane_call ?rid (of_nat k) (?ls ! m)
        # (map (lane_call ?rid (of_nat k)) (drop (Suc m) ?ls)
           @ concat (map ?f (enumerate (Suc k) (drop (Suc k) (sections r)))))"
    using sections_split [OF k, of ?rid 0] by (simp add: road_calls_def sec)
  then show "\<exists>pre post. road_calls r =
        pre @ section_call ?rid (sections r ! k)
          # map (lane_call ?rid (of_nat k)) (take m ?ls)
          @ lane_call ?rid (of_nat k) (?ls ! m) # post"
    by blast
qed

theorem builder_call_order_witness:
  "(\<exists>result extracted. Parse sample_access sample_document [] = Inr result \<and>
      parse_roads sample_access (road_nodes sample_document) [] = Inr extracted \<and>
      result = concat (map road_calls extracted)) \<and>
   1 < length (sections sample_record) \<and>
   0 < length (lanes (sections sample_record ! 1)) \<and>
   forward_roads [sample_record] [] =
     [AddRoad 7 ''main'' (Float 0x42480000) 0 3 (- 1),
      SetRoadTypeSpeed 7 (Float 0) ''town'' (Float 0x42480000) ''km/h'',
      AddRoadSection 7 (CubicPolynomial (Float 0) (Float 0) (Float 0) (Float 0) (Float 0x42480000)),
      AddRoadSectionLane 7 0 1 ''driving'' False 0 0,
      AddRoadSectionLane 7 0 (- 1) ''driving'' False 0 0,
      AddRoadSection 7 (CubicPolynomial (Float 0x42480000) (Float 0) (Float 0) (Float 0) (Float 0)),
      AddRoadSectionLane 7 1 2 ''sidewalk'' True 0 2] \<and>
   (\<exists>pre post. road_calls sample_record =
      pre @ AddRoadSection 7 (CubicPolynomial (Float 0x42480000) (Float 0) (Float 0) (Float 0) (Float 0))
        # AddRoadSectionLane 7 1 2 ''sidewalk'' True 0 2 # post)"
proof -
  note order = builder_call_order [of "[sample_record]" "[]" sample_access sample_document]
  obtain result where run: "Parse sample_access sample_document [] = Inr result"
    by (simp add: document_defs parser_defs)
  with order obtain extracted where
    "parse_roads sample_access (road_nodes sample_document) [] = Inr extracted"
    and "result = [] @ concat (map road_calls extracted)"
    by blast
  with run have parsed: "\<exists>result extracted. Parse sample_access sample_document [] = Inr result \<and>
      parse_roads sample_access (road_nodes sample_document) [] = Inr extracted \<and>
      result = concat (map road_calls extracted)"
    by simp
  have k: "1 < length (sections sample_record)"
    and m: "0 < length (lanes (sections sample_record ! 1))"
    by (simp_all add: sample_record_def)
  from order k m obtain pre post where
    "road_calls sample_record =
       pre @ section_call (id_road sample_record) (sections sample_record ! 1)
         # map (lane_call (id_road sample_record) (of_nat 1))
             (take 0 (lanes (sections sample_record ! 1)))
         @ lane_call (id_road sample_record) (of_nat 1) (lanes (sections sample_record ! 1) ! 0)
         # post"
    by blast
  then have split: "road_calls sample_record =
      pre @ AddRoadSection 7 (CubicPolynomial (Float 0x42480000) (Float 0) (Float 0) (Float 0) (Float 0))
        # AddRoadSectionLane 7 1 2 ''sidewalk'' True 0 2 # post"
    by (simp add: sample_record_def section_call_def lane_call_def)
  have "forward_roads [sample_record] [] = road_calls sample_record"
    using order by simp
  also have "\<dots> =
     [AddRoad 7 ''main'' (Float 0x42480000) 0 3 (- 1),
      SetRoadTypeSpeed 7 (Float 0) ''town'' (Float 0x42480000) ''km/h'',
      AddRoadSection 7 (CubicPolynomial (Float 0) (Float 0) (Float 0) (Float 0) (Float 0x42480000)),
      AddRoadSectionLane 7 0 1 ''driving'' False 0 0,
      AddRoadSectionLane 7 0 (- 1) ''driving'' False 0 0,
      AddRoadSection 7 (CubicPolynomial (Float 0x42480000) (Float 0) (Float 0) (Float 0) (Float 0)),
      AddRoadSectionLane 7 1 2 ''sidewalk'' True 0 2]"
    by (simp add: sample_record_def road_calls_def road_call_def speed_call_def
        section_calls_def section_call_def lane_call_def enumerate_eq_zip upt_rec)
  finally have calls: "forward_roads [sample_record] [] =
     [AddRoad 7 ''main'' (Float 0x42480000) 0 3 (- 1),
      SetRoadTypeSpeed 7 (Float 0) ''town'' (Float 0x42480000) ''km/h'',
      AddRoadSection 7 (CubicPolynomial (Float 0) (Float 0) (Float 0) (Float 0) (Float 0x42480000)),
      AddRoadSectionLane 7 0 1 ''driving'' False 0 0,
      AddRoadSectionLane 7 0 (- 1) ''driving'' False 0 0,
      AddRoadSection 7 (CubicPolynomial (Float 0x42480000) (Float 0) (Float 0) (Float 0) (Float 0)),
      AddRoadSectionLane 7 1 2 ''sidewalk'' True 0 2]" .
  from parsed k m calls split show ?thesis
    by blast
qed

subsection \<open>One road call per road element\<close>



subsection \<open>The section index\<close>

text \<open>
  C6.  For the section at position \<open>k\<close> of a road's section sequence, the forwarding of
  the road is: the forwarding of the road cut down to its first \<open>k\<close> sections (which holds
  exactly \<open>k\<close> \<open>AddRoadSection\<close> calls), then the \<open>AddRoadSection\<close> call of section \<open>k\<close>,
  then one \<open>AddRoadSectionLane\<close> call per lane of section \<open>k\<close>, each with the section index
  \<open>k\<close>, then the calls of the later sections.  The index is the loop counter and does not
  look at the \<open>s\<close> of any section; as a C++ \<^verbatim>\<open>int\<close> it reads as \<open>k\<close> for \<open>k < 2\<^sup>3\<^sup>1\<close>.
\<close>

theorem section_index_is_position:
  assumes "k < length (sections r)"
  shows "forward_road r map_builder =
      forward_road (r\<lparr>sections := take k (sections r)\<rparr>) map_builder
        @ AddRoadSection (id_road r)
            (CubicPolynomial (LaneSection.a (sections r ! k)) (LaneSection.b (sections r ! k))
               (LaneSection.c (sections r ! k)) (LaneSection.d (sections r ! k))
               (LaneSection.s (sections r ! k)))
        # map (\<lambda>l. AddRoadSectionLane (id_road r) (of_nat k) (id_lane l) (Lane.type l) (level l)
                     (Lane.predecessor l) (Lane.successor l))
            (lanes (sections r ! k))
        @ forward_sections (id_road r) (of_nat (Suc k)) (drop (Suc k) (sections r)) [] \<and>
    length (filter is_AddRoadSection
        (forward_road (r\<lparr>sections := take k (sections r)\<rparr>) map_builder)) =
      length (filter is_AddRoadSection map_builder) + k \<and>
    (k < 2 ^ 31 \<longrightarrow> sint (of_nat k :: cint) = int k)"
proof (intro conjI)
  let ?rid = "id_road r"
  let ?f = "\<lambda>(k, sec). section_calls ?rid k sec"
  let ?r' = "r\<lparr>sections := take k (sections r)\<rparr>"
  have pre: "road_calls ?r' = road_call r # map (speed_call ?rid) (speed r)
      @ concat (map ?f (enumerate 0 (take k (sections r))))"
    by (simp add: road_calls_def road_call_def)
  have "road_calls r = road_calls ?r' @ section_calls ?rid k (sections r ! k)
      @ concat (map ?f (enumerate (Suc k) (drop (Suc k) (sections r))))"
    using sections_split [OF assms, of ?rid 0] by (simp add: road_calls_def pre road_call_def)
  moreover have "forward_sections ?rid (of_nat (Suc k)) (drop (Suc k) (sections r)) [] =
      concat (map ?f (enumerate (Suc k) (drop (Suc k) (sections r))))"
    by (simp only: forward_sections_eq append_Nil)
  ultimately show "forward_road r map_builder =
      forward_road ?r' map_builder
        @ AddRoadSection ?rid
            (CubicPolynomial (LaneSection.a (sections r ! k)) (LaneSection.b (sections r ! k))
               (LaneSection.c (sections r ! k)) (LaneSection.d (sections r ! k))
               (LaneSection.s (sections r ! k)))
        # map (\<lambda>l. AddRoadSectionLane ?rid (of_nat k) (id_lane l) (Lane.type l) (level l)
                     (Lane.predecessor l) (Lane.successor l))
            (lanes (sections r ! k))
        @ forward_sections ?rid (of_nat (Suc k)) (drop (Suc k) (sections r)) []"
    by (simp only: forward_road_eq)
      (simp add: section_calls_def section_call_def lane_call_def)
  have "length (filter is_AddRoadSection (road_calls ?r')) = k"
    using assms
    by (simp add: pre road_call_def speed_call_def count_section_calls)
  then show "length (filter is_AddRoadSection (forward_road ?r' map_builder)) =
      length (filter is_AddRoadSection map_builder) + k"
    by (simp add: forward_road_eq)
  show "k < 2 ^ 31 \<longrightarrow> sint (of_nat k :: cint) = int k"
    by (simp add: sint_position)
qed

theorem section_index_is_position_witness:
  "1 < length (sections sample_record) \<and>
   forward_road sample_record [] =
     forward_road (sample_record\<lparr>sections := take 1 (sections sample_record)\<rparr>) []
       @ [AddRoadSection 7 (CubicPolynomial (Float 0x42480000) (Float 0) (Float 0) (Float 0) (Float 0)),
          AddRoadSectionLane 7 1 2 ''sidewalk'' True 0 2] \<and>
   length (filter is_AddRoadSection
       (forward_road (sample_record\<lparr>sections := take 1 (sections sample_record)\<rparr>) [])) = 1 \<and>
   (1 :: nat) < 2 ^ 31 \<and> sint (1 :: cint) = 1"
proof -
  have k: "1 < length (sections sample_record)"
    by (simp add: sample_record_def)
  from section_index_is_position [OF k, of "[]"] show ?thesis
    using k by (simp add: sample_record_def)
qed

subsection \<open>Left lanes before right lanes\<close>



subsection \<open>Running the extraction again\<close>

text \<open>
  On a document with a road that has fewer lane offsets than lane sections, the calls of a
  run depend on what the memory behind the queue holds: two runs over the same document
  that find different memory make different calls.
\<close>

theorem extraction_differs_past_the_end:
  "\<not> offsets_suffice short_road \<and>
   Parse_compiled sample_access stale_zeros
       (Element [] [] [Element ''OpenDRIVE'' [] [short_road]]) [] =
     [AddRoad 4 [] (Float 0) 0 (- 1) (- 1),
      AddRoadSection 4 (CubicPolynomial (Float 0) (Float 0) (Float 0) (Float 0) (Float 0)),
      AddRoadSection 4
        (CubicPolynomial (Float 0) (Float 0) (Float 0) (Float 0) (Float 0x42480000))] \<and>
   Parse_compiled sample_access stale_fifties
       (Element [] [] [Element ''OpenDRIVE'' [] [short_road]]) [] =
     [AddRoad 4 [] (Float 0) 0 (- 1) (- 1),
      AddRoadSection 4 (CubicPolynomial (Float 0) (Float 0) (Float 0) (Float 0) (Float 0)),
      AddRoadSection 4
        (CubicPolynomial (Float 0x42480000) (Float 0) (Float 0) (Float 0x42480000)
           (Float 0x42480000))] \<and>
   Parse_compiled sample_access stale_zeros
       (Element [] [] [Element ''OpenDRIVE'' [] [short_road]]) [] \<noteq>
   Parse_compiled sample_access stale_fifties
       (Element [] [] [Element ''OpenDRIVE'' [] [short_road]]) []"
  by (simp add: document_defs Parse_compiled_def compiled_road_def compiled_section_def
      read_front_def pop_front_def parse_offset_def forward_road_def invoke_def Let_def
      stale_zeros_def stale_fifties_def)


text \<open>
  C8, with the precondition of C1 and C3.  When every road of the document has at least
  as many lane offsets as lane sections, every run appends the same calls, whatever the
  memory behind the queues holds and whatever builder it starts from: a second run over
  the same document appends the calls of the first once more.  The calls are those
  of the extracted roads, and they are what \<open>Parse\<close> returns.
\<close>

theorem extraction_repeatable:
  assumes "\<forall>node_road \<in> set (road_nodes xml). offsets_suffice node_road"
  shows "\<exists>calls.
     calls = concat (map (\<lambda>node_road. road_calls (extracted_road cv node_road)) (road_nodes xml)) \<and>
     Parse_compiled cv stale xml map_builder = map_builder @ calls \<and>
     Parse_compiled cv other_stale xml (map_builder @ calls) = map_builder @ calls @ calls \<and>
     Parse cv xml map_builder = Inr (map_builder @ calls) \<and>
     Parse cv xml (map_builder @ calls) = Inr (map_builder @ calls @ calls)"
  using Parse_compiled_suffice [OF assms, of cv stale map_builder]
    Parse_compiled_suffice [OF assms, of cv other_stale]
    Parse_ok [OF assms, of cv]
  by simp

theorem extraction_repeatable_witness:
  "road_nodes example_document = [example_road] \<and> offsets_suffice example_road \<and>
   (\<exists>calls. Parse_compiled sample_access stale_zeros example_document [] = calls \<and>
      Parse_compiled sample_access stale_fifties example_document calls = calls @ calls \<and>
      Parse sample_access example_document [] = Inr calls \<and>
      Parse sample_access example_document calls = Inr (calls @ calls) \<and>
      calls =
        [AddRoad 10 [] (Float 0x42480000) 0 (- 1) (- 1),
         AddRoadSection 10 (CubicPolynomial (Float 0) (Float 0) (Float 0) (Float 0) (Float 0)),
         AddRoadSectionLane 10 0 1 ''driving'' False 0 0,
         AddRoadSectionLane 10 0 (- 1) ''driving'' False 0 0])"
proof -
  have roads: "road_nodes example_document = [example_road]"
    by (simp add: road_nodes_def child_def children_named_def example_document_def
        example_road_def)
  have one: "offsets_suffice example_road"
    by (simp add: document_defs)
  then have suffice: "\<forall>node_road \<in> set (road_nodes example_document). offsets_suffice node_road"
    by (simp add: roads)
  have evaluated: "Parse sample_access example_document [] =
      Inr [AddRoad 10 [] (Float 0x42480000) 0 (- 1) (- 1),
         AddRoadSection 10 (CubicPolynomial (Float 0) (Float 0) (Float 0) (Float 0) (Float 0)),
         AddRoadSectionLane 10 0 1 ''driving'' False 0 0,
         AddRoadSectionLane 10 0 (- 1) ''driving'' False 0 0]"
    by (simp add: document_defs parser_defs)
  from extraction_repeatable [OF suffice, of sample_access stale_zeros "[]" stale_fifties]
  obtain calls where
    "Parse_compiled sample_access stale_zeros example_document [] = [] @ calls"
    and "Parse_compiled sample_access stale_fifties example_document ([] @ calls) = [] @ calls @ calls"
    and "Parse sample_access example_document [] = Inr ([] @ calls)"
    and "Parse sample_access example_document ([] @ calls) = Inr ([] @ calls @ calls)"
    by blast
  with evaluated roads one show ?thesis
    by auto
qed

subsection \<open>A road outside every junction\<close>




subsection \<open>A lane section without lanes\<close>




end
